theory Spec2Isabelle
  imports Main
begin

section \<open>Rock, Paper, Scissors, Lizard, Spock: the game servers\<close>

text \<open>
  The development embeds two C programs: the multi-player server
  \<^verbatim>\<open>hw3/spock_server.c\<close> (its winner engine, its command handling and its round loop)
  and the two-player server \<^verbatim>\<open>hw5/Wu/spock_server.c\<close> (its dominance rule and its
  round counter). Names follow the C sources.
\<close>

subsection \<open>Moves and the dominance relation\<close>

text \<open>\<^verbatim>\<open>typedef enum { MOVE_ROCK, ..., MOVE_INVALID } Move;\<close> in both servers.\<close>

datatype Move =
  MOVE_ROCK | MOVE_PAPER | MOVE_SCISSORS | MOVE_LIZARD | MOVE_SPOCK | MOVE_INVALID

text \<open>\<^verbatim>\<open>#define MAX_PLAYERS 5\<close> (hw3).\<close>

definition MAX_PLAYERS :: nat where
  "MAX_PLAYERS = 5"

text \<open>
  \<^verbatim>\<open>beats\<close> of hw3: one condition, five disjuncts in the source's order. The C function
  returns 1 or 0; the model returns the truth value.
\<close>

definition beats :: "Move \<Rightarrow> Move \<Rightarrow> bool" where
  "beats m1 m2 =
     ((m1 = MOVE_PAPER \<and> (m2 = MOVE_ROCK \<or> m2 = MOVE_SPOCK)) \<or>
      (m1 = MOVE_SCISSORS \<and> (m2 = MOVE_PAPER \<or> m2 = MOVE_LIZARD)) \<or>
      (m1 = MOVE_SPOCK \<and> (m2 = MOVE_SCISSORS \<or> m2 = MOVE_ROCK)) \<or>
      (m1 = MOVE_ROCK \<and> (m2 = MOVE_SCISSORS \<or> m2 = MOVE_LIZARD)) \<or>
      (m1 = MOVE_LIZARD \<and> (m2 = MOVE_SPOCK \<or> m2 = MOVE_PAPER)))"

text \<open>\<^verbatim>\<open>beats\<close> of hw5: five tests in sequence, each returning 1, then \<^verbatim>\<open>return 0\<close>.\<close>

definition beats_hw5 :: "Move \<Rightarrow> Move \<Rightarrow> bool" where
  "beats_hw5 m1 m2 =
     (if m1 = MOVE_ROCK \<and> (m2 = MOVE_SCISSORS \<or> m2 = MOVE_LIZARD) then True
      else if m1 = MOVE_PAPER \<and> (m2 = MOVE_ROCK \<or> m2 = MOVE_SPOCK) then True
      else if m1 = MOVE_SCISSORS \<and> (m2 = MOVE_PAPER \<or> m2 = MOVE_LIZARD) then True
      else if m1 = MOVE_LIZARD \<and> (m2 = MOVE_PAPER \<or> m2 = MOVE_SPOCK) then True
      else if m1 = MOVE_SPOCK \<and> (m2 = MOVE_ROCK \<or> m2 = MOVE_SCISSORS) then True
      else False)"

text \<open>The five playable moves, in the order of the enumeration.\<close>

definition playable_moves :: "Move list" where
  "playable_moves = [MOVE_ROCK, MOVE_PAPER, MOVE_SCISSORS, MOVE_LIZARD, MOVE_SPOCK]"

subsection \<open>The winner engine of hw3\<close>

text \<open>
  The inner loop of \<^verbatim>\<open>determine_multiplayer_winners\<close>, for a fixed \<open>i\<close>, over the
  indices \<open>j\<close> still to visit. The third argument is \<^verbatim>\<open>i_beats_any\<close> so far; the result
  is the pair (\<^verbatim>\<open>i_is_beaten\<close>, \<^verbatim>\<open>i_beats_any\<close>) at the loop's exit. The \<^verbatim>\<open>break\<close> on a
  beating move leaves the loop at once.
\<close>

fun scan_opponents :: "Move list \<Rightarrow> nat \<Rightarrow> nat list \<Rightarrow> bool \<Rightarrow> bool \<times> bool" where
  "scan_opponents moves i [] i_beats_any = (False, i_beats_any)"
| "scan_opponents moves i (j # js) i_beats_any =
     (if i = j \<or> moves ! j = MOVE_INVALID then scan_opponents moves i js i_beats_any
      else if beats (moves ! j) (moves ! i) then (True, i_beats_any)
      else scan_opponents moves i js
             (if beats (moves ! i) (moves ! j) then True else i_beats_any))"

text \<open>
  The outer loop, step 1: it marks \<^verbatim>\<open>isDominant[i]\<close>. The array has \<^verbatim>\<open>MAX_PLAYERS\<close>
  cells; a store beyond it is an overrun of the C array, which the model reports as
  \<open>None\<close>.
\<close>

fun mark_dominant :: "Move list \<Rightarrow> nat \<Rightarrow> nat list \<Rightarrow> bool list \<Rightarrow> bool list option" where
  "mark_dominant moves numPlayers [] isDominant = Some isDominant"
| "mark_dominant moves numPlayers (i # is) isDominant =
     (if moves ! i = MOVE_INVALID then mark_dominant moves numPlayers is isDominant
      else
        (case scan_opponents moves i [0..<numPlayers] False of
           (i_is_beaten, i_beats_any) \<Rightarrow>
             if \<not> i_is_beaten \<and> i_beats_any then
               (if i < length isDominant
                then mark_dominant moves numPlayers is (isDominant[i := True])
                else None)
             else mark_dominant moves numPlayers is isDominant))"

text \<open>
  Step 2: \<^verbatim>\<open>winners[count++] = i\<close> for every marked \<open>i\<close>. A read of \<^verbatim>\<open>isDominant[i]\<close>
  beyond the array is again \<open>None\<close>. The result is \<^verbatim>\<open>winners[0 .. count-1]\<close>.
\<close>

fun fill_winners :: "bool list \<Rightarrow> nat list \<Rightarrow> nat list \<Rightarrow> nat list option" where
  "fill_winners isDominant [] winners = Some winners"
| "fill_winners isDominant (i # is) winners =
     (if i < length isDominant then
        (if isDominant ! i then fill_winners isDominant is (winners @ [i])
         else fill_winners isDominant is winners)
      else None)"

text \<open>
  \<^verbatim>\<open>determine_multiplayer_winners(moves, numPlayers, winners, pNumWinners)\<close>: the
  \<^verbatim>\<open>memset\<close> of \<^verbatim>\<open>isDominant\<close>, then the two loops. \<open>moves\<close> holds the cells
  \<^verbatim>\<open>moves[0 .. numPlayers-1]\<close>.
\<close>

definition determine_multiplayer_winners :: "Move list \<Rightarrow> nat \<Rightarrow> nat list option" where
  "determine_multiplayer_winners moves numPlayers =
     (case mark_dominant moves numPlayers [0..<numPlayers] (replicate MAX_PLAYERS False) of
        None \<Rightarrow> None
      | Some isDominant \<Rightarrow> fill_winners isDominant [0..<numPlayers] [])"

text \<open>The two-player rule of hw5's \<^verbatim>\<open>main\<close>: who gets \<^verbatim>\<open>scores[k]++\<close>, if anyone.\<close>

definition duel_winner :: "Move \<Rightarrow> Move \<Rightarrow> nat option" where
  "duel_winner m1 m2 =
     (let w1 = beats_hw5 m1 m2; w2 = beats_hw5 m2 m1 in
      if w1 \<and> \<not> w2 then Some 0
      else if w2 \<and> \<not> w1 then Some 1
      else None)"

text \<open>
  The claim's wording of dominance, for comparison with the engine: participant \<open>i\<close> is
  active, no other active participant's move beats \<open>i\<close>'s move, and \<open>i\<close>'s move beats
  the move of at least one other active participant.
\<close>

definition beaten_by :: "Move list \<Rightarrow> nat \<Rightarrow> nat \<Rightarrow> bool" where
  "beaten_by moves i j = (j \<noteq> i \<and> moves ! j \<noteq> MOVE_INVALID \<and> beats (moves ! j) (moves ! i))"

definition beats_other :: "Move list \<Rightarrow> nat \<Rightarrow> nat \<Rightarrow> bool" where
  "beats_other moves i j = (j \<noteq> i \<and> moves ! j \<noteq> MOVE_INVALID \<and> beats (moves ! i) (moves ! j))"

definition dominant :: "Move list \<Rightarrow> nat \<Rightarrow> nat \<Rightarrow> bool" where
  "dominant moves numPlayers i =
     (moves ! i \<noteq> MOVE_INVALID \<and>
      \<not> list_ex (beaten_by moves i) [0..<numPlayers] \<and>
      list_ex (beats_other moves i) [0..<numPlayers])"

subsection \<open>Reading a command (hw3)\<close>

text \<open>
  What \<^verbatim>\<open>recv(fd, buffer, BUF_SIZE - 1, 0)\<close> returned: \<open>RecvError\<close> is \<open>n < 0\<close>;
  \<open>RecvBytes d\<close> is \<open>n = length d\<close> with the bytes \<open>d\<close> stored at the start of the
  buffer (\<open>n = 0\<close> is the peer's orderly close).
\<close>

datatype recv_result = RecvError | RecvBytes string

definition recv_count :: "recv_result \<Rightarrow> int" where
  "recv_count r = (case r of RecvError \<Rightarrow> - 1 | RecvBytes d \<Rightarrow> int (length d))"

text \<open>
  The buffer is cleared by \<^verbatim>\<open>memset\<close> before the read and \<^verbatim>\<open>buffer[n] = '\0'\<close> is
  stored after it, so every cell after the received bytes is NUL.
\<close>

definition buffer_at :: "string \<Rightarrow> nat \<Rightarrow> char" where
  "buffer_at d k = (if k < length d then d ! k else CHR 0x00)"

text \<open>The C string that starts at the buffer: the bytes before the first NUL.\<close>

definition c_str :: "string \<Rightarrow> string" where
  "c_str d = takeWhile (\<lambda>c. c \<noteq> CHR 0x00) d"

text \<open>\<^verbatim>\<open>strncmp(s1, s2, n) == 0\<close> on two C strings.\<close>

definition strncmp_eq :: "string \<Rightarrow> string \<Rightarrow> nat \<Rightarrow> bool" where
  "strncmp_eq s1 s2 n = (take n s1 = take n s2)"

text \<open>\<^verbatim>\<open>char_to_move\<close> of hw3: the \<^verbatim>\<open>switch\<close>, case by case.\<close>

definition char_to_move :: "char \<Rightarrow> Move" where
  "char_to_move c =
     (if c = CHR ''R'' \<or> c = CHR ''r'' then MOVE_ROCK
      else if c = CHR ''P'' \<or> c = CHR ''p'' then MOVE_PAPER
      else if c = CHR ''S'' \<or> c = CHR ''s'' then MOVE_SCISSORS
      else if c = CHR ''L'' \<or> c = CHR ''l'' then MOVE_LIZARD
      else if c = CHR ''K'' \<or> c = CHR ''k'' then MOVE_SPOCK
      else MOVE_INVALID)"

text \<open>\<^verbatim>\<open>move_to_string\<close> of hw3.\<close>

definition move_to_string :: "Move \<Rightarrow> string" where
  "move_to_string m =
     (case m of
        MOVE_ROCK \<Rightarrow> ''Rock''
      | MOVE_PAPER \<Rightarrow> ''Paper''
      | MOVE_SCISSORS \<Rightarrow> ''Scissors''
      | MOVE_LIZARD \<Rightarrow> ''Lizard''
      | MOVE_SPOCK \<Rightarrow> ''Spock''
      | MOVE_INVALID \<Rightarrow> ''Invalid'')"

text \<open>
  The branch that \<^verbatim>\<open>handle_game\<close> takes on a received buffer: the chain of
  \<^verbatim>\<open>strncmp\<close> tests in the source's order. \<open>CmdMove\<close> carries what
  \<^verbatim>\<open>char_to_move(buffer[5])\<close> returned, \<open>MOVE_INVALID\<close> included.
\<close>

datatype Command = CmdQuit | CmdReset | CmdMove Move | CmdUnknown

definition parse_command :: "string \<Rightarrow> Command" where
  "parse_command buffer =
     (if strncmp_eq (c_str buffer) ''QUIT'' 4 then CmdQuit
      else if strncmp_eq (c_str buffer) ''RESET'' 5 then CmdReset
      else if strncmp_eq (c_str buffer) ''MOVE:'' 5
        then CmdMove (char_to_move (buffer_at buffer 5))
      else CmdUnknown)"

subsection \<open>The round loop of hw3\<close>

text \<open>
  The locals of \<^verbatim>\<open>handle_game\<close>. \<open>scores\<close> and \<open>moves\<close> hold the cells
  \<^verbatim>\<open>[0 .. numPlayers-1]\<close> of the two arrays, the only ones the function touches after
  the \<^verbatim>\<open>memset\<close>. \<open>sent\<close> lists every \<^verbatim>\<open>send(client_fds[k], msg, ...)\<close> so far as
  \<open>(k, msg)\<close>, oldest first; the return value of \<^verbatim>\<open>send\<close> is never looked at.
  Scores are C \<^verbatim>\<open>int\<close>s; they are modelled as unbounded integers, so the model says
  nothing about a score at \<^verbatim>\<open>INT_MAX\<close>.
\<close>

record game_state =
  scores :: "int list"
  moves :: "Move list"
  moves_received :: nat
  round_over :: bool
  someone_quit :: bool
  someone_reset :: bool
  sent :: "(nat \<times> string) list"

text \<open>\<^verbatim>\<open>for (k = 0; k < numPlayers; k++) send(client_fds[k], msg, ...)\<close>.\<close>

definition broadcast :: "nat \<Rightarrow> string \<Rightarrow> (nat \<times> string) list" where
  "broadcast numPlayers msg = map (\<lambda>k. (k, msg)) [0..<numPlayers]"

text \<open>\<^verbatim>\<open>for (k = 0; k < numPlayers; k++) scores[k] = 0;\<close>\<close>

definition zero_scores :: "nat \<Rightarrow> int list \<Rightarrow> int list" where
  "zero_scores numPlayers sc = fold (\<lambda>k a. a[k := 0]) [0..<numPlayers] sc"

text \<open>
  The body of the \<^verbatim>\<open>for\<close> loop for a channel \<open>i\<close> that \<^verbatim>\<open>select\<close> reported
  readable, from the \<^verbatim>\<open>recv\<close> on. The second component tells whether the body left
  the loop by \<^verbatim>\<open>break\<close>.
\<close>

definition process_channel :: "nat \<Rightarrow> nat \<Rightarrow> recv_result \<Rightarrow> game_state \<Rightarrow> game_state \<times> bool" where
  "process_channel numPlayers i r s =
     (if recv_count r \<le> 0 then (s\<lparr>someone_quit := True, round_over := True\<rparr>, True)
      else
        (case r of
           RecvError \<Rightarrow> (s\<lparr>someone_quit := True, round_over := True\<rparr>, True)
         | RecvBytes buffer \<Rightarrow>
             (case parse_command buffer of
                CmdQuit \<Rightarrow> (s\<lparr>someone_quit := True, round_over := True\<rparr>, True)
              | CmdReset \<Rightarrow>
                  (s\<lparr>scores := zero_scores numPlayers (scores s),
                     sent := sent s @ broadcast numPlayers ''RESET'',
                     someone_reset := True, round_over := True\<rparr>, True)
              | CmdMove m \<Rightarrow>
                  (let s' = (if m \<noteq> MOVE_INVALID \<and> moves s ! i = MOVE_INVALID
                             then s\<lparr>moves := (moves s)[i := m],
                                    moves_received := moves_received s + 1\<rparr>
                             else s)
                   in (s', round_over s'))
              | CmdUnknown \<Rightarrow> (s, round_over s))))"

text \<open>
  One wake-up of \<^verbatim>\<open>select\<close>: it failed, or it returned with, for every channel index,
  either nothing (the descriptor is not in the returned set) or what the \<^verbatim>\<open>recv\<close> on
  that channel returns if the loop gets to it.
\<close>

datatype select_result = SelectError | SelectReady "recv_result option list"

definition ready_at :: "recv_result option list \<Rightarrow> nat \<Rightarrow> recv_result option" where
  "ready_at rs i = (if i < length rs then rs ! i else None)"

text \<open>The \<^verbatim>\<open>for\<close> loop over the channels, over the indices still to visit.\<close>

fun scan_channels :: "nat \<Rightarrow> recv_result option list \<Rightarrow> nat list \<Rightarrow> game_state \<Rightarrow> game_state" where
  "scan_channels numPlayers rs [] s = s"
| "scan_channels numPlayers rs (i # is) s =
     (case ready_at rs i of
        None \<Rightarrow> scan_channels numPlayers rs is s
      | Some r \<Rightarrow>
          (case process_channel numPlayers i r s of
             (s', brk) \<Rightarrow> if brk then s' else scan_channels numPlayers rs is s'))"

text \<open>
  The inner \<^verbatim>\<open>while (moves_received < numPlayers && !round_over)\<close>. The wake-ups of
  \<^verbatim>\<open>select\<close> come from a list; when the list is used up the server stays blocked in
  \<^verbatim>\<open>select\<close>.
\<close>

datatype collect_result =
    Collected game_state "select_result list"
  | SelectFailure game_state
  | Blocked game_state

fun collect_moves :: "nat \<Rightarrow> game_state \<Rightarrow> select_result list \<Rightarrow> collect_result" where
  "collect_moves numPlayers s [] =
     (if moves_received s < numPlayers \<and> \<not> round_over s then Blocked s else Collected s [])"
| "collect_moves numPlayers s (w # ws) =
     (if moves_received s < numPlayers \<and> \<not> round_over s then
        (case w of
           SelectError \<Rightarrow> SelectFailure s
         | SelectReady rs \<Rightarrow>
             collect_moves numPlayers (scan_channels numPlayers rs [0..<numPlayers] s) ws)
      else Collected s (w # ws))"

subsection \<open>Resolving a round (hw3)\<close>

text \<open>
  \<^verbatim>\<open>snprintf\<close> with \<^verbatim>\<open>%d\<close>: the decimal digits of an integer, with a minus sign for
  a negative one.
\<close>

fun show_nat :: "nat \<Rightarrow> string" where
  "show_nat n =
     (if n < 10 then [''0123456789'' ! n]
      else show_nat (n div 10) @ [''0123456789'' ! (n mod 10)])"

declare show_nat.simps [simp del]

definition show_int :: "int \<Rightarrow> string" where
  "show_int k = (if k < 0 then CHR ''-'' # show_nat (nat (- k)) else show_nat (nat k))"

text \<open>
  The three loops that build \<^verbatim>\<open>moves_part\<close>, \<^verbatim>\<open>scores_part\<close> and
  \<^verbatim>\<open>winners_part\<close>: every pass appends, by \<^verbatim>\<open>strcat\<close>, a comma (except on the first
  pass) and one item. With at most \<^verbatim>\<open>MAX_PLAYERS\<close> items no \<^verbatim>\<open>snprintf\<close> here reaches
  the size of its buffer, so nothing is cut.
\<close>

definition comma_join :: "(nat \<Rightarrow> string) \<Rightarrow> nat \<Rightarrow> string" where
  "comma_join item n =
     fold (\<lambda>i part. part @ (if i = 0 then [] else '','') @ item i) [0..<n] []"

definition result_msg :: "nat \<Rightarrow> nat list \<Rightarrow> Move list \<Rightarrow> int list \<Rightarrow> string" where
  "result_msg numPlayers winners ms sc =
     (let moves_part = comma_join (\<lambda>i. move_to_string (ms ! i)) numPlayers;
          scores_part = comma_join (\<lambda>i. show_int (sc ! i)) numPlayers;
          winners_part = comma_join (\<lambda>i. show_int (int (winners ! i) + 1)) (length winners)
      in ''RESULT:'' @ winners_part @ '':'' @ moves_part @ '':'' @ scores_part)"

text \<open>\<^verbatim>\<open>for (w = 0; w < numWinners; w++) scores[winners[w]]++;\<close>\<close>

definition award :: "nat list \<Rightarrow> int list \<Rightarrow> int list" where
  "award winners sc = fold (\<lambda>w a. a[w := a ! w + 1]) winners sc"

text \<open>
  The part of the round loop after the collection of moves, "decide how round ended":
  \<open>Break\<close> leaves the game loop, \<open>Continue\<close> goes to the next round, \<open>Overrun\<close> is
  the winner engine running over its array.
\<close>

datatype round_end = Break game_state | Continue game_state | Overrun game_state

definition decide_round :: "nat \<Rightarrow> game_state \<Rightarrow> round_end" where
  "decide_round numPlayers s =
     (if someone_quit s then Break (s\<lparr>sent := sent s @ broadcast numPlayers ''QUIT''\<rparr>)
      else if someone_reset s then Continue s
      else if moves_received s = numPlayers then
        (case determine_multiplayer_winners (moves s) numPlayers of
           None \<Rightarrow> Overrun s
         | Some winners \<Rightarrow>
             (let sc = (if length winners = 0 then scores s else award winners (scores s));
                  result = result_msg numPlayers winners (moves s) sc
              in Continue (s\<lparr>scores := sc, sent := sent s @ broadcast numPlayers result\<rparr>)))
      else Continue s)"

text \<open>The head of the round loop: every move slot empty, the three flags down.\<close>

definition new_round :: "nat \<Rightarrow> game_state \<Rightarrow> game_state" where
  "new_round numPlayers s =
     s\<lparr>moves := replicate numPlayers MOVE_INVALID, moves_received := 0,
       round_over := False, someone_quit := False, someone_reset := False\<rparr>"

text \<open>
  How the call of \<^verbatim>\<open>handle_game\<close> ends: after the QUIT broadcast, by the \<^verbatim>\<open>return\<close>
  on a failed \<^verbatim>\<open>select\<close>, or not at all: blocked in \<^verbatim>\<open>select\<close> with no wake-up left,
  or, with no player at all, going round the loop without ever reading.
\<close>

datatype session_end = GameEnded | SelectFailed | AwaitingInput | EngineOverrun | NoPlayers

text \<open>
  What follows the collection of moves in one pass of \<^verbatim>\<open>while (1)\<close>, and the loop
  itself. The state carries \<open>scores\<close> and \<open>sent\<close> from round to round.
\<close>

function game_loop :: "nat \<Rightarrow> game_state \<Rightarrow> select_result list \<Rightarrow> session_end \<times> game_state" where
  "game_loop numPlayers s trace =
     (if numPlayers = 0 then (NoPlayers, s)
      else
        (case collect_moves numPlayers (new_round numPlayers s) trace of
           Blocked s' \<Rightarrow> (AwaitingInput, s')
         | SelectFailure s' \<Rightarrow> (SelectFailed, s')
         | Collected s' rest \<Rightarrow>
             (case decide_round numPlayers s' of
                Break s'' \<Rightarrow> (GameEnded, s'')
              | Overrun s'' \<Rightarrow> (EngineOverrun, s'')
              | Continue s'' \<Rightarrow> game_loop numPlayers s'' rest)))"
  by pat_completeness auto
termination
proof (relation "measure (\<lambda>(numPlayers, s, trace). length trace)")
  show "wf (measure (\<lambda>(numPlayers, s, trace). length trace))"
    by simp
next
  fix numPlayers :: nat and s :: game_state and trace x2 :: "select_result list"
    and x1 x2a :: game_state and x3 :: round_end
  assume np: "numPlayers \<noteq> 0"
    and c: "collect_moves numPlayers (new_round numPlayers s) trace = Collected x1 x2"
  have shorter: "length rest \<le> length tr \<and>
      (moves_received t < numPlayers \<and> \<not> round_over t \<longrightarrow> length rest < length tr)"
    if "collect_moves numPlayers t tr = Collected t' rest" for t t' tr rest
    using that
  proof (induction tr arbitrary: t)
    case Nil
    then show ?case by (simp split: if_splits)
  next
    case (Cons w ws)
    show ?case
    proof (cases "moves_received t < numPlayers \<and> \<not> round_over t")
      case True
      with Cons.prems obtain rs where
        "collect_moves numPlayers (scan_channels numPlayers rs [0..<numPlayers] t) ws
           = Collected t' rest"
        by (auto split: select_result.splits)
      from Cons.IH [OF this] True show ?thesis by simp
    next
      case False
      with Cons.prems show ?thesis by auto
    qed
  qed
  from np have "moves_received (new_round numPlayers s) < numPlayers
      \<and> \<not> round_over (new_round numPlayers s)"
    by (simp add: new_round_def)
  with shorter [OF c] show "((numPlayers, x2a, x2), (numPlayers, s, trace))
      \<in> measure (\<lambda>(numPlayers, s, trace). length trace)"
    by simp
qed

declare game_loop.simps [simp del]

text \<open>
  The rest of a round that is under way in state \<open>s\<close>, and the game after it: the inner
  \<^verbatim>\<open>while\<close> from \<open>s\<close> on, the decision, and the following rounds.
\<close>

definition resume_round :: "nat \<Rightarrow> game_state \<Rightarrow> select_result list \<Rightarrow> session_end \<times> game_state" where
  "resume_round numPlayers s trace =
     (case collect_moves numPlayers s trace of
        Blocked s' \<Rightarrow> (AwaitingInput, s')
      | SelectFailure s' \<Rightarrow> (SelectFailed, s')
      | Collected s' rest \<Rightarrow>
          (case decide_round numPlayers s' of
             Break s'' \<Rightarrow> (GameEnded, s'')
           | Overrun s'' \<Rightarrow> (EngineOverrun, s'')
           | Continue s'' \<Rightarrow> game_loop numPlayers s'' rest))"

text \<open>
  \<^verbatim>\<open>handle_game(client_fds, numPlayers)\<close>: the scores cleared, then the loop. The move
  slots get their first values at the head of the first round.
\<close>

definition handle_game :: "nat \<Rightarrow> select_result list \<Rightarrow> session_end \<times> game_state" where
  "handle_game numPlayers trace =
     game_loop numPlayers
       \<lparr>scores = replicate numPlayers 0, moves = [], moves_received = 0,
        round_over = False, someone_quit = False, someone_reset = False, sent = []\<rparr>
       trace"

subsection \<open>The command line of hw3\<close>





subsection \<open>The two-player server of hw5\<close>

text \<open>\<^verbatim>\<open>toupper\<close> in the C locale.\<close>

definition toupper :: "char \<Rightarrow> char" where
  "toupper c =
     (case map_of (zip ''abcdefghijklmnopqrstuvwxyz'' ''ABCDEFGHIJKLMNOPQRSTUVWXYZ'') c of
        Some u \<Rightarrow> u
      | None \<Rightarrow> c)"

text \<open>\<^verbatim>\<open>char_to_move\<close> of hw5: \<^verbatim>\<open>toupper\<close>, then the \<^verbatim>\<open>switch\<close>.\<close>

definition char_to_move_hw5 :: "char \<Rightarrow> Move" where
  "char_to_move_hw5 c0 =
     (let c = toupper c0 in
      if c = CHR ''R'' then MOVE_ROCK
      else if c = CHR ''P'' then MOVE_PAPER
      else if c = CHR ''S'' then MOVE_SCISSORS
      else if c = CHR ''L'' then MOVE_LIZARD
      else if c = CHR ''K'' then MOVE_SPOCK
      else MOVE_INVALID)"

text \<open>\<^verbatim>\<open>move_to_char\<close> of hw5: the letter at the move's position in \<^verbatim>\<open>"RPSLK"\<close>.\<close>

definition move_to_char :: "Move \<Rightarrow> char" where
  "move_to_char m =
     (case m of
        MOVE_ROCK \<Rightarrow> CHR ''R''
      | MOVE_PAPER \<Rightarrow> CHR ''P''
      | MOVE_SCISSORS \<Rightarrow> CHR ''S''
      | MOVE_LIZARD \<Rightarrow> CHR ''L''
      | MOVE_SPOCK \<Rightarrow> CHR ''K''
      | MOVE_INVALID \<Rightarrow> CHR ''X'')"

text \<open>
  The variables of hw5's \<^verbatim>\<open>main\<close> that outlive a pass of the game loop, and the
  messages sent to the client so far.
\<close>

record duel_state =
  score1 :: int
  score2 :: int
  round :: int
  to_client :: "string list"

text \<open>
  One wake-up of hw5's \<^verbatim>\<open>select\<close>: it failed, or it returned with the two readiness
  bits (standard input, client socket), the character that \<^verbatim>\<open>getchar\<close> returns for the
  line typed by player 1, and what the \<^verbatim>\<open>recv\<close> for player 2's command returns. The
  last two are used only if the pass gets to them.
\<close>

datatype duel_wakeup = DuelSelectError | DuelReady bool bool char recv_result

text \<open>How a pass of the loop body ends: \<^verbatim>\<open>break\<close>, \<^verbatim>\<open>continue\<close>, or at its last line.\<close>

datatype pass_end = PassBreak | PassContinue | PassEnd

definition round_info :: "duel_state \<Rightarrow> string" where
  "round_info s =
     ''INFO:Starting Round '' @ show_int (round s) @ ''. Score P1:'' @ show_int (score1 s)
       @ '' P2:'' @ show_int (score2 s) @ [CHR 0x0A, CHR 0x0A]"

definition duel_result_msg :: "Move \<Rightarrow> Move \<Rightarrow> duel_state \<Rightarrow> string" where
  "duel_result_msg m1 m2 s =
     ''RESULT:'' @ [move_to_char m1] @ '':'' @ [move_to_char m2] @ '':''
       @ show_int (score1 s) @ '':'' @ show_int (score2 s)"

text \<open>
  The loop body of hw5's \<^verbatim>\<open>main\<close> up to, and without, its last line \<^verbatim>\<open>round++\<close>.
\<close>

definition duel_pass :: "duel_state \<Rightarrow> duel_wakeup \<Rightarrow> pass_end \<times> duel_state" where
  "duel_pass s0 w =
     (let s = s0\<lparr>to_client := to_client s0 @ [round_info s0]\<rparr> in
      case w of
        DuelSelectError \<Rightarrow> (PassBreak, s)
      | DuelReady stdin_ready client_ready c reply \<Rightarrow>
          if stdin_ready then
            (if c = CHR ''Q'' then (PassBreak, s\<lparr>to_client := to_client s @ [''QUIT'']\<rparr>)
             else if c = CHR ''T'' then
               (PassContinue,
                s\<lparr>score1 := 0, score2 := 0, to_client := to_client s @ [''RESET'']\<rparr>)
             else
               (let m1 = char_to_move_hw5 c in
                if m1 = MOVE_INVALID then (PassContinue, s)
                else
                  (let s1 = s\<lparr>to_client := to_client s
                              @ [''INFO:Player1 has made a choice. Your turn.'' @ [CHR 0x0A]]\<rparr>
                   in
                   if recv_count reply \<le> 0 then (PassBreak, s1)
                   else
                     (case reply of
                        RecvError \<Rightarrow> (PassBreak, s1)
                      | RecvBytes buf \<Rightarrow>
                          if strncmp_eq (c_str buf) ''QUIT'' 4 then (PassBreak, s1)
                          else if strncmp_eq (c_str buf) ''RESET'' 5 then
                            (PassContinue, s1\<lparr>score1 := 0, score2 := 0\<rparr>)
                          else
                            (let m2 = (if strncmp_eq (c_str buf) ''MOVE:'' 5
                                       then char_to_move_hw5 (buffer_at buf 5)
                                       else MOVE_INVALID)
                             in
                             if m2 = MOVE_INVALID then (PassContinue, s1)
                             else
                               (let w1 = beats_hw5 m1 m2; w2 = beats_hw5 m2 m1;
                                    s2 = (if w1 \<and> \<not> w2 then s1\<lparr>score1 := score1 s1 + 1\<rparr>
                                          else if w2 \<and> \<not> w1 then s1\<lparr>score2 := score2 s1 + 1\<rparr>
                                          else s1)
                                in (PassEnd,
                                    s2\<lparr>to_client := to_client s2
                                         @ [duel_result_msg m1 m2 s2]\<rparr>)))))))
          else (PassEnd, s))"

text \<open>
  One pass of \<^verbatim>\<open>while (1)\<close>: the body, then \<^verbatim>\<open>round++\<close> unless the body left by
  \<^verbatim>\<open>break\<close> or \<^verbatim>\<open>continue\<close>. The first component tells whether the loop goes on.
\<close>

definition duel_iteration :: "duel_state \<Rightarrow> duel_wakeup \<Rightarrow> bool \<times> duel_state" where
  "duel_iteration s w =
     (case duel_pass s w of
        (PassBreak, s') \<Rightarrow> (False, s')
      | (PassContinue, s') \<Rightarrow> (True, s')
      | (PassEnd, s') \<Rightarrow> (True, s'\<lparr>round := round s' + 1\<rparr>))"

text \<open>The game loop of hw5 over a list of wake-ups, from \<^verbatim>\<open>scores = {0, 0}; round = 1\<close>.\<close>

fun duel_loop :: "duel_state \<Rightarrow> duel_wakeup list \<Rightarrow> bool \<times> duel_state" where
  "duel_loop s [] = (True, s)"
| "duel_loop s (w # ws) =
     (case duel_iteration s w of
        (False, s') \<Rightarrow> (False, s')
      | (True, s') \<Rightarrow> duel_loop s' ws)"

definition duel_start :: duel_state where
  "duel_start = \<lparr>score1 = 0, score2 = 0, round = 1, to_client = []\<rparr>"

subsection \<open>Vocabulary for the properties\<close>




text \<open>The state at the start of a round, with the given scores and messages sent.\<close>

definition fresh_round :: "nat \<Rightarrow> int list \<Rightarrow> (nat \<times> string) list \<Rightarrow> game_state" where
  "fresh_round numPlayers sc out =
     \<lparr>scores = sc, moves = replicate numPlayers MOVE_INVALID, moves_received = 0,
      round_over = False, someone_quit = False, someone_reset = False, sent = out\<rparr>"


text \<open>
  The parser in the specification's words, for comparison with \<open>parse_command\<close>:
  \<^verbatim>\<open>QUIT\<close> and \<^verbatim>\<open>RESET\<close> by prefix, \<^verbatim>\<open>MOVE:\<close> followed by exactly one letter of
  R, P, S, L, K in either case, and anything else unrecognized.
\<close>

definition move_letter :: "char \<Rightarrow> Move option" where
  "move_letter c =
     (if c = CHR ''R'' \<or> c = CHR ''r'' then Some MOVE_ROCK
      else if c = CHR ''P'' \<or> c = CHR ''p'' then Some MOVE_PAPER
      else if c = CHR ''S'' \<or> c = CHR ''s'' then Some MOVE_SCISSORS
      else if c = CHR ''L'' \<or> c = CHR ''l'' then Some MOVE_LIZARD
      else if c = CHR ''K'' \<or> c = CHR ''k'' then Some MOVE_SPOCK
      else None)"

datatype spec_command = Quit | Reset | MoveOf Move | Unrecognized

definition spec_parse :: "string \<Rightarrow> spec_command" where
  "spec_parse bytes =
     (if take 4 bytes = ''QUIT'' then Quit
      else if take 5 bytes = ''RESET'' then Reset
      else if take 5 bytes = ''MOVE:'' \<and> length bytes = 6 then
        (case move_letter (bytes ! 5) of Some m \<Rightarrow> MoveOf m | None \<Rightarrow> Unrecognized)
      else Unrecognized)"

text \<open>
  The wake-ups of hw5 on which the pass plays a round to its end: player 1 typed a move,
  and player 2's command is a valid move. And those with nothing to read on standard
  input.
\<close>

definition resolves :: "duel_wakeup \<Rightarrow> bool" where
  "resolves w =
     (case w of
        DuelSelectError \<Rightarrow> False
      | DuelReady stdin_ready client_ready c reply \<Rightarrow>
          stdin_ready \<and> c \<noteq> CHR ''Q'' \<and> c \<noteq> CHR ''T'' \<and>
          char_to_move_hw5 c \<noteq> MOVE_INVALID \<and>
          (case reply of
             RecvError \<Rightarrow> False
           | RecvBytes buf \<Rightarrow>
               0 < length buf \<and> take 4 buf \<noteq> ''QUIT'' \<and> take 5 buf \<noteq> ''RESET'' \<and>
               take 5 buf = ''MOVE:'' \<and> char_to_move_hw5 (buffer_at buf 5) \<noteq> MOVE_INVALID))"

definition stdin_idle :: "duel_wakeup \<Rightarrow> bool" where
  "stdin_idle w =
     (case w of
        DuelSelectError \<Rightarrow> False
      | DuelReady stdin_ready client_ready c reply \<Rightarrow> \<not> stdin_ready)"


section \<open>Properties\<close>

subsection \<open>The dominance relation\<close>

lemma beats_hw5_eq: "beats_hw5 m1 m2 = beats m1 m2"
  by (cases m1; cases m2; simp add: beats_hw5_def beats_def)

lemma beats_irrefl: "\<not> beats m m"
  by (cases m; simp add: beats_def)

lemma beats_total: "a \<noteq> MOVE_INVALID \<Longrightarrow> b \<noteq> MOVE_INVALID \<Longrightarrow> a \<noteq> b \<Longrightarrow> beats a b \<noteq> beats b a"
  by (cases a; cases b; simp add: beats_def)

lemma beats_invalid: "\<not> beats MOVE_INVALID m" "\<not> beats m MOVE_INVALID"
  by (cases m; simp add: beats_def)+

lemma beats_out_degree: "m \<noteq> MOVE_INVALID \<Longrightarrow> length (filter (beats m) playable_moves) = 2"
  by (cases m; simp add: beats_def playable_moves_def)

lemma beats_in_degree:
  "m \<noteq> MOVE_INVALID \<Longrightarrow> length (filter (\<lambda>x. beats x m) playable_moves) = 2"
  by (cases m; simp add: beats_def playable_moves_def)

lemma beats_card:
  "m \<noteq> MOVE_INVALID \<Longrightarrow> card {x. beats m x} = 2 \<and> card {x. beats x m} = 2"
proof (cases m)
  case MOVE_ROCK
  have "{x. beats MOVE_ROCK x} = {MOVE_SCISSORS, MOVE_LIZARD}"
    "{x. beats x MOVE_ROCK} = {MOVE_PAPER, MOVE_SPOCK}"
    by (auto simp: beats_def)
  with MOVE_ROCK show ?thesis by simp
next
  case MOVE_PAPER
  have "{x. beats MOVE_PAPER x} = {MOVE_ROCK, MOVE_SPOCK}"
    "{x. beats x MOVE_PAPER} = {MOVE_SCISSORS, MOVE_LIZARD}"
    by (auto simp: beats_def)
  with MOVE_PAPER show ?thesis by simp
next
  case MOVE_SCISSORS
  have "{x. beats MOVE_SCISSORS x} = {MOVE_PAPER, MOVE_LIZARD}"
    "{x. beats x MOVE_SCISSORS} = {MOVE_SPOCK, MOVE_ROCK}"
    by (auto simp: beats_def)
  with MOVE_SCISSORS show ?thesis by simp
next
  case MOVE_LIZARD
  have "{x. beats MOVE_LIZARD x} = {MOVE_SPOCK, MOVE_PAPER}"
    "{x. beats x MOVE_LIZARD} = {MOVE_SCISSORS, MOVE_ROCK}"
    by (auto simp: beats_def)
  with MOVE_LIZARD show ?thesis by simp
next
  case MOVE_SPOCK
  have "{x. beats MOVE_SPOCK x} = {MOVE_SCISSORS, MOVE_ROCK}"
    "{x. beats x MOVE_SPOCK} = {MOVE_PAPER, MOVE_LIZARD}"
    by (auto simp: beats_def)
  with MOVE_SPOCK show ?thesis by simp
next
  case MOVE_INVALID
  moreover assume "m \<noteq> MOVE_INVALID"
  ultimately show ?thesis by simp
qed

text \<open>
  Claim C2. Over the five playable moves \<^verbatim>\<open>beats\<close> is a tournament: of two distinct
  playable moves exactly one beats the other, no move beats itself, and every playable
  move beats exactly two moves and is beaten by exactly two moves. (\<open>MOVE_INVALID\<close>
  neither beats nor is beaten, so the counts are the same over the whole enumeration and
  over the five playable moves.) The function of hw5 is the same relation as that of hw3.
\<close>

theorem beats_tournament:
  "(a \<noteq> MOVE_INVALID \<and> b \<noteq> MOVE_INVALID \<and> a \<noteq> b \<longrightarrow> (beats a b \<longleftrightarrow> \<not> beats b a)) \<and>
   \<not> beats a a \<and>
   (a \<noteq> MOVE_INVALID \<longrightarrow>
      card {x. beats a x} = 2 \<and> card {x. beats x a} = 2 \<and>
      length (filter (beats a) playable_moves) = 2 \<and>
      length (filter (\<lambda>x. beats x a) playable_moves) = 2) \<and>
   beats_hw5 a b = beats a b"
  using beats_total [of a b] beats_irrefl [of a] beats_card [of a]
    beats_out_degree [of a] beats_in_degree [of a] beats_hw5_eq [of a b]
  by blast

theorem beats_tournament_witness:
  "beats MOVE_PAPER MOVE_ROCK \<and> \<not> beats MOVE_ROCK MOVE_PAPER \<and>
   card {x. beats MOVE_PAPER x} = 2 \<and> card {x. beats x MOVE_PAPER} = 2 \<and>
   beats_hw5 MOVE_PAPER MOVE_ROCK"
  using beats_tournament [of MOVE_PAPER MOVE_ROCK]
  by (simp add: beats_def)

subsection \<open>The winner engine\<close>

lemma scan_opponents_beaten:
  "fst (scan_opponents mvs i js a) = list_ex (beaten_by mvs i) js"
  by (induction js arbitrary: a) (auto simp: beaten_by_def)

lemma scan_opponents_beats_any:
  "\<not> list_ex (beaten_by mvs i) js \<Longrightarrow>
   snd (scan_opponents mvs i js a) = (a \<or> list_ex (beats_other mvs i) js)"
  by (induction js arbitrary: a) (auto simp: beaten_by_def beats_other_def)

lemma scan_opponents_dominant:
  "mvs ! i \<noteq> MOVE_INVALID \<Longrightarrow>
   (case scan_opponents mvs i [0..<n] False of (b, a) \<Rightarrow> \<not> b \<and> a) = dominant mvs n i"
  using scan_opponents_beaten [of mvs i "[0..<n]" False]
    scan_opponents_beats_any [of mvs i "[0..<n]" False]
  by (auto simp: dominant_def split: prod.splits)

lemma mark_dominant_Some:
  "\<forall>i \<in> set is. i < length isDominant \<Longrightarrow>
   \<exists>d. mark_dominant mvs n is isDominant = Some d \<and> length d = length isDominant \<and>
       (\<forall>k < length isDominant. d ! k = (isDominant ! k \<or> (k \<in> set is \<and> dominant mvs n k)))"
proof (induction "is" arbitrary: isDominant)
  case Nil
  then show ?case by simp
next
  case (Cons i "is")
  show ?case
  proof (cases "mvs ! i = MOVE_INVALID")
    case True
    then have nd: "\<not> dominant mvs n i" by (simp add: dominant_def)
    from Cons.IH [of isDominant] Cons.prems True nd show ?thesis
      by auto
  next
    case False
    note sd = scan_opponents_dominant [OF False, of n]
    show ?thesis
    proof (cases "dominant mvs n i")
      case True
      with sd have c: "(case scan_opponents mvs i [0..<n] False of (b, a) \<Rightarrow> \<not> b \<and> a)" by simp
      from Cons.prems have il: "i < length isDominant" by simp
      from Cons.prems have "\<forall>j \<in> set is. j < length (isDominant[i := True])" by simp
      from Cons.IH [OF this] obtain d where
        d: "mark_dominant mvs n is (isDominant[i := True]) = Some d"
           "length d = length isDominant"
           "\<forall>k < length isDominant. d ! k = ((isDominant[i := True]) ! k \<or> (k \<in> set is \<and> dominant mvs n k))"
        by auto
      from c False il d(1) have "mark_dominant mvs n (i # is) isDominant = Some d"
        by (auto split: prod.splits)
      moreover from d(3) True il
      have "\<forall>k < length isDominant. d ! k = (isDominant ! k \<or> (k \<in> set (i # is) \<and> dominant mvs n k))"
        by (auto simp: nth_list_update)
      ultimately show ?thesis using d(2) by blast
    next
      case nd: False
      with sd have c: "\<not> (case scan_opponents mvs i [0..<n] False of (b, a) \<Rightarrow> \<not> b \<and> a)" by simp
      from Cons.prems have "\<forall>j \<in> set is. j < length isDominant" by simp
      from Cons.IH [OF this] obtain d where
        d: "mark_dominant mvs n is isDominant = Some d"
           "length d = length isDominant"
           "\<forall>k < length isDominant. d ! k = (isDominant ! k \<or> (k \<in> set is \<and> dominant mvs n k))"
        by auto
      from c False d(1) have "mark_dominant mvs n (i # is) isDominant = Some d"
        by (auto split: prod.splits)
      moreover from d(3) nd
      have "\<forall>k < length isDominant. d ! k = (isDominant ! k \<or> (k \<in> set (i # is) \<and> dominant mvs n k))"
        by auto
      ultimately show ?thesis using d(2) by blast
    qed
  qed
qed

lemma fill_winners_Some:
  "\<forall>i \<in> set is. i < length isDominant \<Longrightarrow>
   fill_winners isDominant is winners = Some (winners @ filter (\<lambda>i. isDominant ! i) is)"
  by (induction "is" arbitrary: winners) auto

lemma determine_multiplayer_winners_filter:
  assumes "numPlayers \<le> MAX_PLAYERS"
  shows "determine_multiplayer_winners mvs numPlayers =
         Some (filter (dominant mvs numPlayers) [0..<numPlayers])"
proof -
  let ?init = "replicate MAX_PLAYERS False"
  from assms have r: "\<forall>i \<in> set [0..<numPlayers]. i < length ?init" by simp
  from mark_dominant_Some [OF r, of mvs numPlayers] obtain d where
    d: "mark_dominant mvs numPlayers [0..<numPlayers] ?init = Some d"
       "length d = MAX_PLAYERS"
       "\<forall>k < MAX_PLAYERS. d ! k = (?init ! k \<or> (k \<in> set [0..<numPlayers] \<and> dominant mvs numPlayers k))"
    by auto
  from assms d(2) have r': "\<forall>i \<in> set [0..<numPlayers]. i < length d" by simp
  have "filter (\<lambda>i. d ! i) [0..<numPlayers] = filter (dominant mvs numPlayers) [0..<numPlayers]"
    using d(3) assms by (intro filter_cong) auto
  with d(1) fill_winners_Some [OF r', of "[]"] show ?thesis
    by (simp add: determine_multiplayer_winners_def)
qed


text \<open>With a sixth player the second loop reads past \<^verbatim>\<open>isDominant\<close>.\<close>

lemma determine_multiplayer_winners_overrun:
  "determine_multiplayer_winners (replicate 6 MOVE_ROCK) 6 = None"
  by (simp add: determine_multiplayer_winners_def MAX_PLAYERS_def upt_rec beats_def)






text \<open>
  Claim C4. With two participants the engine agrees with the classical two-player rule,
  as hw5's \<^verbatim>\<open>main\<close> applies it: the winners are \<open>[i]\<close> exactly when participant \<open>i\<close>'s
  move beats the other's, and nobody wins otherwise.
\<close>

theorem two_player_reduction:
  "determine_multiplayer_winners [m0, m1] 2 =
      Some (if beats m0 m1 then [0] else if beats m1 m0 then [1] else []) \<and>
   determine_multiplayer_winners [m0, m1] 2 =
      Some (case duel_winner m0 m1 of None \<Rightarrow> [] | Some k \<Rightarrow> [k]) \<and>
   (determine_multiplayer_winners [m0, m1] 2 = Some [0] \<longleftrightarrow> beats m0 m1) \<and>
   (determine_multiplayer_winners [m0, m1] 2 = Some [1] \<longleftrightarrow> beats m1 m0)"
proof -
  have "(2::nat) \<le> MAX_PLAYERS" by (simp add: MAX_PLAYERS_def)
  from determine_multiplayer_winners_filter [OF this, of "[m0, m1]"]
  have eq: "determine_multiplayer_winners [m0, m1] 2 =
      Some (if beats m0 m1 then [0] else if beats m1 m0 then [1] else [])"
    by (cases m0; cases m1;
        simp add: dominant_def beaten_by_def beats_other_def beats_def upt_rec)
  have dw: "(case duel_winner m0 m1 of None \<Rightarrow> [] | Some k \<Rightarrow> [k]) =
      (if beats m0 m1 then [0] else if beats m1 m0 then [1] else [])"
    by (cases m0; cases m1; simp add: duel_winner_def beats_hw5_eq beats_def)
  have ex: "\<not> (beats m0 m1 \<and> beats m1 m0)"
    by (cases m0; cases m1; simp add: beats_def)
  from eq dw ex show ?thesis by auto
qed

subsection \<open>The round loop\<close>

lemma game_loop_resume:
  "numPlayers \<noteq> 0 \<Longrightarrow>
   game_loop numPlayers s trace = resume_round numPlayers (new_round numPlayers s) trace"
  by (simp add: game_loop.simps [of numPlayers s trace] resume_round_def)

lemma new_round_fresh: "new_round numPlayers s = fresh_round numPlayers (scores s) (sent s)"
  by (simp add: new_round_def fresh_round_def)











subsection \<open>Commands\<close>

lemma take_c_str:
  "\<forall>c \<in> set lit. c \<noteq> CHR 0x00 \<Longrightarrow> length lit = n \<Longrightarrow>
   (take n (c_str buf) = lit) = (take n buf = lit)"
  unfolding c_str_def
proof (induction lit arbitrary: buf n)
  case Nil
  then show ?case by simp
next
  case (Cons x lit)
  then obtain k where k: "n = Suc k" by (cases n) auto
  show ?case
  proof (cases buf)
    case Nil
    with k show ?thesis by simp
  next
    case (Cons b bs)
    with Cons.IH [of k bs] Cons.prems k show ?thesis by auto
  qed
qed

lemma strncmp_prefix:
  "strncmp_eq (c_str buf) ''QUIT'' 4 = (take 4 buf = ''QUIT'')"
  "strncmp_eq (c_str buf) ''RESET'' 5 = (take 5 buf = ''RESET'')"
  "strncmp_eq (c_str buf) ''MOVE:'' 5 = (take 5 buf = ''MOVE:'')"
  by (simp_all add: strncmp_eq_def take_c_str)

lemma parse_command_prefix:
  "parse_command buf =
     (if take 4 buf = ''QUIT'' then CmdQuit
      else if take 5 buf = ''RESET'' then CmdReset
      else if take 5 buf = ''MOVE:'' then CmdMove (char_to_move (buffer_at buf 5))
      else CmdUnknown)"
  by (simp add: parse_command_def strncmp_prefix)

lemma char_to_move_letter:
  "char_to_move c = (case move_letter c of Some m \<Rightarrow> m | None \<Rightarrow> MOVE_INVALID)"
  by (simp add: char_to_move_def move_letter_def)

lemma parse_command_move_tail: "parse_command (''MOVE:'' @ c # tail) = CmdMove (char_to_move c)"
  by (simp add: parse_command_prefix buffer_at_def)

lemma parse_command_nonempty: "parse_command buf \<noteq> CmdUnknown \<Longrightarrow> 0 < length buf"
  by (cases buf) (simp_all add: parse_command_prefix)

lemma process_channel_ignored:
  assumes "0 < length buf"
    and "parse_command buf = CmdUnknown \<or> parse_command buf = CmdMove MOVE_INVALID"
  shows "process_channel numPlayers i (RecvBytes buf) s = (s, round_over s)"
  using assms by (auto simp: process_channel_def recv_count_def)

lemma process_channel_duplicate:
  assumes "parse_command buf = CmdMove m" and "moves s ! i \<noteq> MOVE_INVALID"
  shows "process_channel numPlayers i (RecvBytes buf) s = (s, round_over s)"
proof -
  from assms(1) have "0 < length buf" by (intro parse_command_nonempty) simp
  with assms show ?thesis by (simp add: process_channel_def recv_count_def)
qed

lemma process_channel_first_move:
  assumes "parse_command buf = CmdMove m" and "m \<noteq> MOVE_INVALID"
    and "moves s ! i = MOVE_INVALID"
  shows "process_channel numPlayers i (RecvBytes buf) s =
           (s\<lparr>moves := (moves s)[i := m], moves_received := moves_received s + 1\<rparr>,
            round_over s)"
proof -
  from assms(1) have "0 < length buf" by (intro parse_command_nonempty) simp
  with assms show ?thesis by (simp add: process_channel_def recv_count_def)
qed

text \<open>
  Claim C9. A MOVE command from a participant whose slot is already set in this round
  leaves the whole state as it is: the recorded move, the count of moves received and
  the scores. A participant's first valid move is stored in the slot and counted, and
  every later MOVE command of that participant finds the state unchanged.
\<close>

theorem first_move_retained:
  assumes "parse_command buf = CmdMove m"
  shows "(moves s ! i \<noteq> MOVE_INVALID \<longrightarrow>
            process_channel numPlayers i (RecvBytes buf) s = (s, round_over s)) \<and>
         (moves s ! i = MOVE_INVALID \<and> m \<noteq> MOVE_INVALID \<and> i < length (moves s) \<longrightarrow>
            (\<exists>s'. process_channel numPlayers i (RecvBytes buf) s = (s', round_over s) \<and>
                  moves s' ! i = m \<and> moves_received s' = moves_received s + 1 \<and>
                  scores s' = scores s \<and>
                  (\<forall>buf2 m2. parse_command buf2 = CmdMove m2 \<longrightarrow>
                     process_channel numPlayers i (RecvBytes buf2) s' = (s', round_over s'))))"
proof (intro conjI impI)
  assume "moves s ! i \<noteq> MOVE_INVALID"
  with assms show "process_channel numPlayers i (RecvBytes buf) s = (s, round_over s)"
    by (rule process_channel_duplicate)
next
  assume a: "moves s ! i = MOVE_INVALID \<and> m \<noteq> MOVE_INVALID \<and> i < length (moves s)"
  let ?s' = "s\<lparr>moves := (moves s)[i := m], moves_received := moves_received s + 1\<rparr>"
  from a assms have p: "process_channel numPlayers i (RecvBytes buf) s = (?s', round_over s)"
    by (intro process_channel_first_move) simp_all
  from a have set: "moves ?s' ! i \<noteq> MOVE_INVALID" by simp
  have "process_channel numPlayers i (RecvBytes buf2) ?s' = (?s', round_over ?s')"
    if "parse_command buf2 = CmdMove m2" for buf2 m2
    using that set by (rule process_channel_duplicate)
  with p a show "\<exists>s'. process_channel numPlayers i (RecvBytes buf) s = (s', round_over s) \<and>
                  moves s' ! i = m \<and> moves_received s' = moves_received s + 1 \<and>
                  scores s' = scores s \<and>
                  (\<forall>buf2 m2. parse_command buf2 = CmdMove m2 \<longrightarrow>
                     process_channel numPlayers i (RecvBytes buf2) s' = (s', round_over s'))"
    by (intro exI [of _ ?s']) simp
qed

text \<open>
  Claim C8, as amended. The first four bytes \<^verbatim>\<open>QUIT\<close> make a Quit; otherwise the first
  five bytes \<^verbatim>\<open>RESET\<close> make a Reset; otherwise the first five bytes \<^verbatim>\<open>MOVE:\<close> make a
  Move command that the sixth byte alone decides: one of R, P, S, L, K in either case is
  that move, whatever bytes follow it. Every other input (\<^verbatim>\<open>MOVE:\<close> with another sixth
  byte or none, or any other text) leaves the round's state unchanged: it is not counted
  as a move and does not end the round.
\<close>

theorem parse_command_cases:
  "parse_command buf =
     (if take 4 buf = ''QUIT'' then CmdQuit
      else if take 5 buf = ''RESET'' then CmdReset
      else if take 5 buf = ''MOVE:'' then CmdMove (char_to_move (buffer_at buf 5))
      else CmdUnknown) \<and>
   char_to_move c = (case move_letter c of Some m \<Rightarrow> m | None \<Rightarrow> MOVE_INVALID) \<and>
   parse_command (''MOVE:'' @ c # tail) = CmdMove (char_to_move c) \<and>
   (0 < length buf \<and> (parse_command buf = CmdUnknown \<or> parse_command buf = CmdMove MOVE_INVALID)
      \<longrightarrow> process_channel numPlayers i (RecvBytes buf) s = (s, round_over s))"
  using parse_command_prefix [of buf] char_to_move_letter [of c]
    parse_command_move_tail [of c tail] process_channel_ignored [of buf numPlayers i s]
  by simp

text \<open>
  The claim as stated fails: \<^verbatim>\<open>MOVE:Rock\<close> is not \<^verbatim>\<open>MOVE:\<close> followed by exactly one
  letter, yet the server records Rock for the sender and counts the move.
\<close>

theorem parse_command_counterexample:
  "spec_parse ''MOVE:Rock'' = Unrecognized \<and>
   parse_command ''MOVE:Rock'' = CmdMove MOVE_ROCK \<and>
   process_channel 2 0 (RecvBytes ''MOVE:Rock'') (fresh_round 2 [0, 0] []) =
     ((fresh_round 2 [0, 0] [])\<lparr>moves := [MOVE_ROCK, MOVE_INVALID], moves_received := 1\<rparr>, False)"
  by (simp add: spec_parse_def parse_command_prefix buffer_at_def char_to_move_def
      process_channel_def recv_count_def fresh_round_def numeral_2_eq_2)

subsection \<open>A resolved round, and commands at work\<close>

lemma replicate_small:
  "replicate 2 x = [x, x]" "replicate 3 x = [x, x, x]"
  by (simp_all add: numeral_2_eq_2 numeral_3_eq_3)

text \<open>
  Claim C3. With three participants, moves [Rock, Rock, Scissors] and all scores zero,
  the engine returns the indices 0 and 1 (participants 1 and 2), both Rock players' scores
  become 1, and the message sent to every channel is exactly
  \<^verbatim>\<open>RESULT:1,2:Rock,Rock,Scissors:1,1,0\<close>; so it is for a whole session that receives
  these three moves.
\<close>

theorem rock_rock_scissors_round:
  "determine_multiplayer_winners [MOVE_ROCK, MOVE_ROCK, MOVE_SCISSORS] 3 = Some [0, 1] \<and>
   map Suc [0, 1] = [1, 2] \<and>
   decide_round 3
     \<lparr>scores = [0, 0, 0], moves = [MOVE_ROCK, MOVE_ROCK, MOVE_SCISSORS], moves_received = 3,
      round_over = False, someone_quit = False, someone_reset = False, sent = []\<rparr> =
   Continue
     \<lparr>scores = [1, 1, 0], moves = [MOVE_ROCK, MOVE_ROCK, MOVE_SCISSORS], moves_received = 3,
      round_over = False, someone_quit = False, someone_reset = False,
      sent = [(0, ''RESULT:1,2:Rock,Rock,Scissors:1,1,0''),
              (1, ''RESULT:1,2:Rock,Rock,Scissors:1,1,0''),
              (2, ''RESULT:1,2:Rock,Rock,Scissors:1,1,0'')]\<rparr> \<and>
   handle_game 3
     [SelectReady [Some (RecvBytes ''MOVE:R''), Some (RecvBytes ''MOVE:r''),
                   Some (RecvBytes ''MOVE:S'')]] =
   (AwaitingInput,
    \<lparr>scores = [1, 1, 0], moves = [MOVE_INVALID, MOVE_INVALID, MOVE_INVALID],
     moves_received = 0, round_over = False, someone_quit = False, someone_reset = False,
     sent = [(0, ''RESULT:1,2:Rock,Rock,Scissors:1,1,0''),
             (1, ''RESULT:1,2:Rock,Rock,Scissors:1,1,0''),
             (2, ''RESULT:1,2:Rock,Rock,Scissors:1,1,0'')]\<rparr>)"
proof (intro conjI)
  show w: "determine_multiplayer_winners [MOVE_ROCK, MOVE_ROCK, MOVE_SCISSORS] 3 = Some [0, 1]"
    by (simp add: determine_multiplayer_winners_def MAX_PLAYERS_def beats_def upt_rec)
  show "map Suc [0, 1] = [1, 2]" by simp
  show d: "decide_round 3
     \<lparr>scores = [0, 0, 0], moves = [MOVE_ROCK, MOVE_ROCK, MOVE_SCISSORS], moves_received = 3,
      round_over = False, someone_quit = False, someone_reset = False, sent = []\<rparr> =
   Continue
     \<lparr>scores = [1, 1, 0], moves = [MOVE_ROCK, MOVE_ROCK, MOVE_SCISSORS], moves_received = 3,
      round_over = False, someone_quit = False, someone_reset = False,
      sent = [(0, ''RESULT:1,2:Rock,Rock,Scissors:1,1,0''),
              (1, ''RESULT:1,2:Rock,Rock,Scissors:1,1,0''),
              (2, ''RESULT:1,2:Rock,Rock,Scissors:1,1,0'')]\<rparr>"
    by (simp add: decide_round_def w award_def result_msg_def comma_join_def show_int_def
        show_nat.simps move_to_string_def broadcast_def upt_rec Let_def)
  have c: "collect_moves 3 (fresh_round 3 [0, 0, 0] [])
      [SelectReady [Some (RecvBytes ''MOVE:R''), Some (RecvBytes ''MOVE:r''),
                   Some (RecvBytes ''MOVE:S'')]] =
      Collected \<lparr>scores = [0, 0, 0], moves = [MOVE_ROCK, MOVE_ROCK, MOVE_SCISSORS],
        moves_received = 3, round_over = False, someone_quit = False, someone_reset = False,
        sent = []\<rparr> []"
    by (simp add: fresh_round_def upt_rec ready_at_def process_channel_def recv_count_def
        parse_command_prefix buffer_at_def char_to_move_def replicate_small)
  have h: "handle_game 3 tr = resume_round 3 (fresh_round 3 [0, 0, 0] []) tr" for tr
    by (simp add: handle_game_def game_loop_resume new_round_fresh replicate_small)
  have "resume_round 3 (fresh_round 3 [0, 0, 0] [])
      [SelectReady [Some (RecvBytes ''MOVE:R''), Some (RecvBytes ''MOVE:r''),
                   Some (RecvBytes ''MOVE:S'')]] =
    game_loop 3
     \<lparr>scores = [1, 1, 0], moves = [MOVE_ROCK, MOVE_ROCK, MOVE_SCISSORS], moves_received = 3,
      round_over = False, someone_quit = False, someone_reset = False,
      sent = [(0, ''RESULT:1,2:Rock,Rock,Scissors:1,1,0''),
              (1, ''RESULT:1,2:Rock,Rock,Scissors:1,1,0''),
              (2, ''RESULT:1,2:Rock,Rock,Scissors:1,1,0'')]\<rparr> []"
    unfolding resume_round_def c by (simp add: d)
  also have "\<dots> = (AwaitingInput,
    \<lparr>scores = [1, 1, 0], moves = [MOVE_INVALID, MOVE_INVALID, MOVE_INVALID],
     moves_received = 0, round_over = False, someone_quit = False, someone_reset = False,
     sent = [(0, ''RESULT:1,2:Rock,Rock,Scissors:1,1,0''),
             (1, ''RESULT:1,2:Rock,Rock,Scissors:1,1,0''),
             (2, ''RESULT:1,2:Rock,Rock,Scissors:1,1,0'')]\<rparr>)"
    by (simp add: game_loop_resume resume_round_def new_round_def replicate_small)
  finally show "handle_game 3
     [SelectReady [Some (RecvBytes ''MOVE:R''), Some (RecvBytes ''MOVE:r''),
                   Some (RecvBytes ''MOVE:S'')]] =
   (AwaitingInput,
    \<lparr>scores = [1, 1, 0], moves = [MOVE_INVALID, MOVE_INVALID, MOVE_INVALID],
     moves_received = 0, round_over = False, someone_quit = False, someone_reset = False,
     sent = [(0, ''RESULT:1,2:Rock,Rock,Scissors:1,1,0''),
             (1, ''RESULT:1,2:Rock,Rock,Scissors:1,1,0''),
             (2, ''RESULT:1,2:Rock,Rock,Scissors:1,1,0'')]\<rparr>)"
    by (simp only: h)
qed

theorem first_move_retained_witness:
  "process_channel 2 0 (RecvBytes ''MOVE:K'')
     \<lparr>scores = [0, 0], moves = [MOVE_ROCK, MOVE_INVALID], moves_received = 1,
      round_over = False, someone_quit = False, someone_reset = False, sent = []\<rparr> =
   (\<lparr>scores = [0, 0], moves = [MOVE_ROCK, MOVE_INVALID], moves_received = 1,
     round_over = False, someone_quit = False, someone_reset = False, sent = []\<rparr>, False) \<and>
   (\<exists>s'. process_channel 2 1 (RecvBytes ''MOVE:K'')
          \<lparr>scores = [0, 0], moves = [MOVE_ROCK, MOVE_INVALID], moves_received = 1,
           round_over = False, someone_quit = False, someone_reset = False, sent = []\<rparr>
        = (s', False) \<and> moves s' ! 1 = MOVE_SPOCK \<and> moves_received s' = 2 \<and>
        process_channel 2 1 (RecvBytes ''MOVE:P'') s' = (s', False))"
proof -
  let ?s = "\<lparr>scores = [0, 0], moves = [MOVE_ROCK, MOVE_INVALID], moves_received = 1,
           round_over = False, someone_quit = False, someone_reset = False, sent = []\<rparr>"
  have p: "parse_command ''MOVE:K'' = CmdMove MOVE_SPOCK"
    "parse_command ''MOVE:P'' = CmdMove MOVE_PAPER"
    by (simp_all add: parse_command_prefix buffer_at_def char_to_move_def)
  from first_move_retained [OF p(1), of ?s 0 2, THEN conjunct1]
  have a: "process_channel 2 0 (RecvBytes ''MOVE:K'') ?s = (?s, False)" by simp
  from first_move_retained [OF p(1), of ?s 1 2, THEN conjunct2]
  obtain s' where s': "process_channel 2 1 (RecvBytes ''MOVE:K'') ?s = (s', False)"
    "moves s' ! 1 = MOVE_SPOCK" "moves_received s' = 2"
    "\<forall>buf2 m2. parse_command buf2 = CmdMove m2 \<longrightarrow>
        process_channel 2 1 (RecvBytes buf2) s' = (s', round_over s')"
    by auto
  from s'(1) [symmetric] have "round_over s' = False"
    by (simp add: process_channel_def recv_count_def p)
  with s'(4) p(2) have "process_channel 2 1 (RecvBytes ''MOVE:P'') s' = (s', False)"
    by metis
  with a s' show ?thesis by blast
qed

theorem parse_command_cases_witness:
  "parse_command ''HELLO'' = CmdUnknown \<and>
   parse_command ''MOVE:kxyz'' = CmdMove MOVE_SPOCK \<and>
   process_channel 2 0 (RecvBytes ''HELLO'') (fresh_round 2 [0, 0] [])
     = (fresh_round 2 [0, 0] [], False)"
  using parse_command_cases [of "''HELLO''" "CHR ''k''" "''xyz''" 2 0 "fresh_round 2 [0, 0] []"]
  by (simp add: move_letter_def fresh_round_def)

subsection \<open>Sessions\<close>


















subsection \<open>The command line\<close>







subsection \<open>The round counter of hw5\<close>

text \<open>When the counter advances: on a resolved round, and on an idle standard input.\<close>

lemma duel_pass_end:
  "fst (duel_pass s w) = PassEnd \<longleftrightarrow> resolves w \<or> stdin_idle w"
  by (cases w)
     (auto simp: duel_pass_def resolves_def stdin_idle_def Let_def recv_count_def
        strncmp_prefix split: recv_result.splits)

lemma duel_round_counter:
  "round (snd (duel_iteration s w)) =
     (if resolves w \<or> stdin_idle w then round s + 1 else round s)"
proof -
  have r: "round (snd (duel_pass s w)) = round s"
    by (cases w)
       (auto simp: duel_pass_def Let_def split: recv_result.splits)
  obtain e s' where p: "duel_pass s w = (e, s')" by (cases "duel_pass s w")
  with duel_pass_end [of s w] r show ?thesis
    by (cases e) (auto simp: duel_iteration_def)
qed

lemma duel_result_sent:
  "resolves w \<Longrightarrow>
   \<exists>m1 m2 t. to_client (snd (duel_iteration s w)) =
     to_client s @ [round_info s, ''INFO:Player1 has made a choice. Your turn.'' @ [CHR 0x0A],
                    duel_result_msg m1 m2 t]"
  by (cases w)
     (auto simp: duel_iteration_def duel_pass_def resolves_def Let_def recv_count_def
        strncmp_prefix split: recv_result.splits)

lemma duel_reset_keeps_round:
  "round (snd (duel_iteration s (DuelReady True client_ready (CHR ''T'') reply))) = round s"
  by (simp add: duel_iteration_def duel_pass_def)

text \<open>
  Claim C7. The round counter of hw5 should advance exactly when a round resolves. On a
  wake-up of \<^verbatim>\<open>select\<close> with nothing to read on standard input (only the client socket
  is readable) the pass plays no round and sends no RESULT, and still ends in
  \<^verbatim>\<open>round++\<close>: from the start of the game the counter goes from 1 to 2.
\<close>

theorem round_advances_without_result:
  "duel_iteration s (DuelReady False client_ready c reply) =
     (True, s\<lparr>to_client := to_client s @ [round_info s], round := round s + 1\<rparr>) \<and>
   duel_loop duel_start [DuelReady False True c reply] =
     (True, \<lparr>score1 = 0, score2 = 0, round = 2,
             to_client = [''INFO:Starting Round 1. Score P1:0 P2:0'' @ [CHR 0x0A, CHR 0x0A]]\<rparr>)"
  by (simp add: duel_iteration_def duel_pass_def duel_start_def round_info_def show_int_def
      show_nat.simps)

end
